theory Spec2Isabelle
  imports Complex_Main "HOL-Library.AList" "HOL-Library.Sublist"
begin

section \<open>The streaming console of \<open>ClientPage.tsx\<close> (component \<open>CenterClient\<close>)\<close>

text \<open>
  The component keeps three observable pieces of state (the log lines, the result object
  and the list of final links), one flag held in a ref (\<open>streamingReceivedRef\<close>) and two
  handlers, \<open>runAnalyze\<close> and \<open>runExport\<close>. Each handler opens one streamed HTTP response,
  cuts it into frames at blank lines and folds every data line of every frame into the
  state. The model below follows the two handlers statement by statement.

  Conventions of the model:
  \<^item> text is a \<open>string\<close>, so its characters are those of HOL's 8-bit \<open>char\<close>; a chunk
    is the text that the streaming \<open>TextDecoder\<close> returns for one read;
  \<^item> a response body is a finite list of chunks followed by the end of the stream or by
    a failing read; a transport that stalls forever (the handler then never returns) is
    not represented;
  \<^item> \<open>JSON.parse\<close>, \<open>String\<close> and \<open>JSON.stringify\<close> belong to the platform and are
    parameters of the model (record \<open>platform\<close>);
  \<^item> \<open>pushLog\<close> prefixes the wall-clock time; a line written by it is \<open>Stamped m\<close>, a line
    written directly by \<open>setLogs\<close> is \<open>Plain m\<close>;
  \<^item> the Japanese literals of the user interface are written as ASCII glosses; only their
    identity is used.
\<close>

subsection \<open>JavaScript values\<close>

datatype json =
    JNull
  | JBool bool
  | JNum rat
  | JStr string
  | JArr "json list"
  | JObj "(string \<times> json) list"

text \<open>A value of the program is a \<open>json option\<close>: \<open>None\<close> is \<open>undefined\<close>.\<close>

record platform =
  JSON_parse :: "string \<Rightarrow> json option"  \<comment> \<open>\<open>None\<close>: \<open>JSON.parse\<close> throws a SyntaxError\<close>
  String_of :: "json option \<Rightarrow> string option"  \<comment> \<open>\<open>String(v)\<close>; \<open>None\<close>: it throws a TypeError\<close>
  JSON_stringify :: "json option \<Rightarrow> string"  \<comment> \<open>\<open>`${JSON.stringify(v)}`\<close>\<close>

text \<open>
  Property read \<open>v.k\<close> for the names the handlers read (\<open>event\<close>, \<open>data\<close>,
  \<open>ocr_snapshot_url\<close>, \<open>output_spreadsheet_url\<close>, \<open>debug_logs\<close>, \<open>maker_cds\<close>): an own
  property of an object, \<open>undefined\<close> on every other non-null value. Reading a property of
  \<open>null\<close> throws; the callers test for \<open>JNull\<close> first.
\<close>

fun prop_of :: "json \<Rightarrow> string \<Rightarrow> json option" where
  "prop_of (JObj kvs) k = map_of kvs k"
| "prop_of _ k = None"

fun truthy :: "json option \<Rightarrow> bool" where
  "truthy None = False"
| "truthy (Some JNull) = False"
| "truthy (Some (JBool b)) = b"
| "truthy (Some (JNum n)) = (n \<noteq> 0)"
| "truthy (Some (JStr s)) = (s \<noteq> [])"
| "truthy (Some (JArr xs)) = True"
| "truthy (Some (JObj kvs)) = True"

text \<open>\<open>typeof data === "object" && data !== null\<close>: objects and arrays.\<close>

fun is_object :: "json option \<Rightarrow> bool" where
  "is_object (Some (JObj kvs)) = True"
| "is_object (Some (JArr xs)) = True"
| "is_object _ = False"

text \<open>
  \<open>a === b\<close> where \<open>a\<close> was stored by an earlier event and \<open>b\<close> comes from the event at
  hand: primitives compare by value, objects and arrays by reference, and two parses never
  share a reference.
\<close>

fun strict_eq :: "json \<Rightarrow> json \<Rightarrow> bool" where
  "strict_eq (JArr xs) b = False"
| "strict_eq (JObj kvs) b = False"
| "strict_eq a b = (a = b)"

fun digit_char :: "nat \<Rightarrow> char" where
  "digit_char n = char_of (48 + n)"

fun decimal :: "nat \<Rightarrow> string" where
  "decimal n = (if n < 10 then [digit_char n] else decimal (n div 10) @ [digit_char (n mod 10)])"

text \<open>The own enumerable properties copied by the spread \<open>{...v}\<close>.\<close>

fun spread :: "json \<Rightarrow> (string \<times> json) list" where
  "spread (JObj kvs) = kvs"
| "spread (JArr xs) = zip (map decimal [0..<length xs]) xs"
| "spread (JStr s) = zip (map decimal [0..<length s]) (map (\<lambda>c. JStr [c]) s)"
| "spread _ = []"

subsection \<open>Strings\<close>

definition nl :: char where
  "nl = CHR ''\<newline>''"

text \<open>\<open>buf.split("\n\n")\<close>: cut at every blank-line delimiter, leftmost first.\<close>

fun split_frames :: "string \<Rightarrow> string \<Rightarrow> string list" where
  "split_frames acc [] = [acc]"
| "split_frames acc [a] = [acc @ [a]]"
| "split_frames acc (a # b # rest) =
     (if a = nl \<and> b = nl then acc # split_frames [] rest
      else split_frames (acc @ [a]) (b # rest))"

text \<open>\<open>part.split(/\n/)\<close>.\<close>

fun split_lines :: "string \<Rightarrow> string \<Rightarrow> string list" where
  "split_lines acc [] = [acc]"
| "split_lines acc (a # rest) =
     (if a = nl then acc # split_lines [] rest else split_lines (acc @ [a]) rest)"

text \<open>White space and line terminators of \<open>String.prototype.trim\<close> below code 256.\<close>

definition is_space :: "char \<Rightarrow> bool" where
  "is_space c = (of_char c \<in> {9, 10, 11, 12, 13, 32, 160 :: nat})"

definition trim :: "string \<Rightarrow> string" where
  "trim s = rev (dropWhile is_space (rev (dropWhile is_space s)))"

definition startsWith :: "string \<Rightarrow> string \<Rightarrow> bool" where
  "startsWith s p = (take (length p) s = p)"

subsection \<open>Component state\<close>

datatype logline = Stamped string | Plain string

record FinalLink =
  name :: string
  url :: json

record console =
  centerId :: string
  ocrFiles :: "string list"
  logs :: "logline list"
  response :: "json option"  \<comment> \<open>\<open>None\<close> is \<open>null\<close>\<close>
  finalLinks :: "FinalLink list"
  error :: "string option"
  analyzing :: bool
  exporting :: bool
  streamingReceived :: bool  \<comment> \<open>\<open>streamingReceivedRef.current\<close>\<close>
  requests :: "string list"  \<comment> \<open>the endpoints fetched so far, oldest first\<close>

datatype phase = Analyze | Export

definition pushLog :: "string \<Rightarrow> console \<Rightarrow> console" where
  "pushLog message s = s\<lparr>logs := logs s @ [Stamped message]\<rparr>"

definition msg_analyze_started :: string where
  "msg_analyze_started = ''Analysis started''"

definition msg_backend_done :: string where
  "msg_backend_done = ''Backend processing completed''"

definition msg_analyze_error :: string where
  "msg_analyze_error = ''An error occurred''"

definition msg_export_started :: string where
  "msg_export_started = ''Starting generation of the request spreadsheets''"

definition msg_export_done :: string where
  "msg_export_done = ''Spreadsheet generation completed''"

definition msg_export_error :: string where
  "msg_export_error = ''An error occurred during spreadsheet generation''"

definition err_no_center :: string where
  "err_no_center = ''Center ID is not specified.''"

definition err_no_files :: string where
  "err_no_files = ''Please select the OCR target files.''"

definition err_no_stream :: string where
  "err_no_stream = ''Could not obtain the response stream''"

definition err_no_result :: string where
  "err_no_result = ''There is no analysis result.''"

definition link_ocr :: string where
  "link_ocr = ''OCR result spreadsheet''"

definition link_requests :: string where
  "link_requests = ''Request spreadsheets per maker''"

subsection \<open>The reducer: one data line\<close>

text \<open>
  The block guarded by \<open>if (!streamingReceivedRef.current)\<close>, the same in both handlers:
  the string elements of an array \<open>debug_logs\<close> are appended, without time stamp.
\<close>

fun string_elems :: "json list \<Rightarrow> string list" where
  "string_elems [] = []"
| "string_elems (JStr x # xs) = x # string_elems xs"
| "string_elems (x # xs) = string_elems xs"

definition append_debug_logs :: "json \<Rightarrow> console \<Rightarrow> console" where
  "append_debug_logs d s =
     (if \<not> streamingReceived s then
        (case prop_of d ''debug_logs'' of
           Some (JArr maybeLogs) \<Rightarrow>
             (let stringLogs = string_elems maybeLogs in
              if stringLogs \<noteq> [] then
                s\<lparr>logs := logs s @ map (\<lambda>ln. Plain (''[BE] '' @ ln)) stringLogs\<rparr>
              else s)
         | _ \<Rightarrow> s)
      else s)"

definition add_link :: "string \<Rightarrow> json \<Rightarrow> console \<Rightarrow> console" where
  "add_link n u s = s\<lparr>finalLinks := finalLinks s @ [\<lparr>name = n, url = u\<rparr>]\<rparr>"

text \<open>The \<open>result\<close> branch of \<open>runAnalyze\<close>, for a payload that is an object.\<close>

definition analyze_result :: "json \<Rightarrow> console \<Rightarrow> console" where
  "analyze_result d s =
     (let s1 = s\<lparr>response := Some d\<rparr>;
          s2 = (case prop_of d ''ocr_snapshot_url'' of
                  Some u \<Rightarrow> if truthy (Some u) then add_link link_ocr u s1 else s1
                | None \<Rightarrow> s1);
          s3 = (case prop_of d ''output_spreadsheet_url'' of
                  Some u \<Rightarrow> if truthy (Some u) then add_link link_requests u s2 else s2
                | None \<Rightarrow> s2)
      in append_debug_logs d s3)"

text \<open>The \<open>result\<close> branch of \<open>runExport\<close>, for a payload that is an object.\<close>

definition export_set_url :: "json \<Rightarrow> json option \<Rightarrow> json option" where
  "export_set_url u prev =
     (case prev of
        None \<Rightarrow> None
      | Some p \<Rightarrow>
          if truthy (Some p)
          then Some (JObj (AList.update ''output_spreadsheet_url'' u (spread p)))
          else Some p)"

definition export_add_link :: "json \<Rightarrow> FinalLink list \<Rightarrow> FinalLink list" where
  "export_add_link u prev =
     (if list_ex (\<lambda>item. strict_eq (url item) u) prev then prev
      else prev @ [\<lparr>name = link_requests, url = u\<rparr>])"

definition export_result :: "json \<Rightarrow> console \<Rightarrow> console" where
  "export_result d s =
     (let s1 = (case prop_of d ''output_spreadsheet_url'' of
                  Some u \<Rightarrow>
                    if truthy (Some u)
                    then s\<lparr>response := export_set_url u (response s),
                           finalLinks := export_add_link u (finalLinks s)\<rparr>
                    else s
                | None \<Rightarrow> s)
      in append_debug_logs d s1)"

definition on_result :: "phase \<Rightarrow> json option \<Rightarrow> console \<Rightarrow> console" where
  "on_result ph data s =
     (case data of
        None \<Rightarrow> s
      | Some d \<Rightarrow>
          if is_object data
          then (case ph of Analyze \<Rightarrow> analyze_result d s | Export \<Rightarrow> export_result d s)
          else s)"

definition done_message :: "phase \<Rightarrow> string" where
  "done_message ph = (case ph of Analyze \<Rightarrow> msg_backend_done | Export \<Rightarrow> msg_export_done)"

text \<open>
  The body of the inner \<open>try\<close> for one data line whose text after the marker is
  \<open>payloadRaw\<close>. The boolean is \<open>True\<close> when the line loop is left by \<open>break\<close> (and
  \<open>finished\<close> has been set). Every exception raised inside the \<open>try\<close> ends in the \<open>catch\<close>,
  which logs the raw text.
\<close>

definition on_data :: "platform \<Rightarrow> phase \<Rightarrow> string \<Rightarrow> console \<Rightarrow> bool \<times> console" where
  "on_data E ph payloadRaw s =
     (case JSON_parse E payloadRaw of
        None \<Rightarrow> (False, pushLog (''[BE] '' @ payloadRaw) s)
      | Some JNull \<Rightarrow> (False, pushLog (''[BE] '' @ payloadRaw) s)
      | Some payload \<Rightarrow>
          (let ev = prop_of payload ''event''; data = prop_of payload ''data'' in
           if ev = Some (JStr ''dbg'') then
             (let s1 = s\<lparr>streamingReceived := True\<rparr> in
              case String_of E data of
                Some t \<Rightarrow> (False, pushLog (''[BE] '' @ t) s1)
              | None \<Rightarrow> (False, pushLog (''[BE] '' @ payloadRaw) s1))
           else if ev = Some (JStr ''result'') then (False, on_result ph data s)
           else if ev = Some (JStr ''done'') then (True, pushLog (done_message ph) s)
           else
             (case String_of E ev of
                Some k \<Rightarrow> (False, pushLog (''[BE:'' @ k @ ''] '' @ JSON_stringify E data) s)
              | None \<Rightarrow> (False, pushLog (''[BE] '' @ payloadRaw) s))))"

subsection \<open>Frames and the read loop\<close>

text \<open>
  One iteration of the loop \<open>for (const line of lines)\<close> over the trimmed lines of a
  frame; the boolean is \<open>True\<close> when the iteration ends in \<open>break\<close>.
\<close>

definition line_step :: "platform \<Rightarrow> phase \<Rightarrow> string \<Rightarrow> console \<Rightarrow> bool \<times> console" where
  "line_step E ph line s =
     (if startsWith line '':'' then (False, s)
      else if \<not> startsWith line ''data:'' then (False, s)
      else on_data E ph (trim (drop (length ''data:'') line)) s)"

fun process_lines :: "platform \<Rightarrow> phase \<Rightarrow> string list \<Rightarrow> console \<Rightarrow> bool \<times> console" where
  "process_lines E ph [] s = (False, s)"
| "process_lines E ph (line # lines) s =
     (case line_step E ph line s of
        (True, s') \<Rightarrow> (True, s')
      | (False, s') \<Rightarrow> process_lines E ph lines s')"

definition frame_lines :: "string \<Rightarrow> string list" where
  "frame_lines part = map trim (split_lines [] part)"

text \<open>
  The loop \<open>for (const part of parts)\<close>. The \<open>break\<close> of a \<open>done\<close> event leaves the line
  loop only, so the remaining parts are still visited; the boolean is the value of
  \<open>finished\<close> after the loop.
\<close>

fun process_parts :: "platform \<Rightarrow> phase \<Rightarrow> string list \<Rightarrow> console \<Rightarrow> bool \<times> console" where
  "process_parts E ph [] s = (False, s)"
| "process_parts E ph (part # parts) s =
     (case process_lines E ph (frame_lines part) s of
        (f1, s1) \<Rightarrow>
          (case process_parts E ph parts s1 of
             (f2, s2) \<Rightarrow> (f1 \<or> f2, s2)))"

text \<open>
  The loop \<open>while (!finished)\<close>: the list holds the chunks still to be read. The result
  is \<open>True\<close> when the loop ended because \<open>finished\<close> was set, \<open>False\<close> when every chunk has
  been read (the next read reports the end of the stream, or rejects).
\<close>

fun read_loop :: "platform \<Rightarrow> phase \<Rightarrow> string list \<Rightarrow> string \<Rightarrow> console \<Rightarrow> bool \<times> console" where
  "read_loop E ph [] buf s = (False, s)"
| "read_loop E ph (chunk # chunks) buf s =
     (let parts = split_frames [] (buf @ chunk) in
      case process_parts E ph (butlast parts) s of
        (True, s') \<Rightarrow> (True, s')
      | (False, s') \<Rightarrow> read_loop E ph chunks (last parts) s')"

subsection \<open>The two handlers\<close>

text \<open>What the network does for one request.\<close>

datatype stream_end =
    Closed  \<comment> \<open>the read after the last chunk reports \<open>done\<close>\<close>
  | ReadFailed string  \<comment> \<open>the read after the last chunk rejects with this message\<close>

datatype transport =
    Rejected string  \<comment> \<open>\<open>fetch\<close>, or reading the error body, rejects with this message\<close>
  | NotOk nat string string  \<comment> \<open>\<open>!res.ok\<close>: status, status text, body text\<close>
  | NoBody  \<comment> \<open>\<open>res.body\<close> is absent\<close>
  | Body "string list" stream_end  \<comment> \<open>the decoded chunks in arrival order\<close>

definition analyze_endpoint :: string where
  "analyze_endpoint = ''/orders/process/stream''"

definition export_endpoint :: string where
  "export_endpoint = ''/orders/export/stream''"

definition not_ok_message :: "nat \<Rightarrow> string \<Rightarrow> string \<Rightarrow> string" where
  "not_ok_message status statusText body = decimal status @ '' '' @ statusText @ '' - '' @ body"

definition error_message :: "phase \<Rightarrow> string" where
  "error_message ph = (case ph of Analyze \<Rightarrow> msg_analyze_error | Export \<Rightarrow> msg_export_error)"

text \<open>The \<open>catch (err)\<close> of a handler.\<close>

definition catch_error :: "phase \<Rightarrow> string \<Rightarrow> console \<Rightarrow> console" where
  "catch_error ph message s = pushLog (error_message ph) (s\<lparr>error := Some message\<rparr>)"

text \<open>The \<open>try\<close> block of a handler, from \<open>fetch\<close> to the end of the read loop.\<close>

definition run_session :: "platform \<Rightarrow> phase \<Rightarrow> transport \<Rightarrow> console \<Rightarrow> console" where
  "run_session E ph net s =
     (case net of
        Rejected message \<Rightarrow> catch_error ph message s
      | NotOk status statusText body \<Rightarrow> catch_error ph (not_ok_message status statusText body) s
      | NoBody \<Rightarrow> catch_error ph err_no_stream s
      | Body chunks ending \<Rightarrow>
          (case read_loop E ph chunks [] s of
             (True, s') \<Rightarrow> s'
           | (False, s') \<Rightarrow>
               (case ending of
                  Closed \<Rightarrow> s'
                | ReadFailed message \<Rightarrow> catch_error ph message s')))"

definition runAnalyze :: "platform \<Rightarrow> transport \<Rightarrow> console \<Rightarrow> console" where
  "runAnalyze E net s =
     (if centerId s = [] then s\<lparr>error := Some err_no_center\<rparr>
      else if ocrFiles s = [] then s\<lparr>error := Some err_no_files\<rparr>
      else
        (let s0 = pushLog msg_analyze_started
                    (s\<lparr>error := None, analyzing := True, response := None,
                       finalLinks := [], logs := []\<rparr>);
             s1 = run_session E Analyze net (s0\<lparr>requests := requests s0 @ [analyze_endpoint]\<rparr>)
         in s1\<lparr>analyzing := False\<rparr>))"

text \<open>
  \<open>canExport\<close> is computed while rendering:
  \<open>Object.values(response.maker_cds ?? {}).some((codes) => codes.length)\<close>.
  Reading \<open>length\<close> of \<open>null\<close> throws, and then the component does not render.
\<close>

fun object_values :: "json \<Rightarrow> json list" where
  "object_values (JObj kvs) = map snd kvs"
| "object_values (JArr xs) = xs"
| "object_values (JStr s) = map (\<lambda>c. JStr [c]) s"
| "object_values _ = []"

fun has_length :: "json \<Rightarrow> bool option" where
  "has_length JNull = None"
| "has_length (JArr xs) = Some (xs \<noteq> [])"
| "has_length (JStr s) = Some (s \<noteq> [])"
| "has_length (JObj kvs) = Some (truthy (map_of kvs ''length''))"
| "has_length _ = Some False"

fun some_length :: "json list \<Rightarrow> bool option" where
  "some_length [] = Some False"
| "some_length (codes # rest) =
     (case has_length codes of
        None \<Rightarrow> None
      | Some True \<Rightarrow> Some True
      | Some False \<Rightarrow> some_length rest)"

definition canExport :: "json option \<Rightarrow> bool option" where
  "canExport resp =
     (case resp of
        None \<Rightarrow> Some False
      | Some r \<Rightarrow>
          some_length (object_values
            (case prop_of r ''maker_cds'' of
               None \<Rightarrow> JObj []
             | Some JNull \<Rightarrow> JObj []
             | Some m \<Rightarrow> m)))"

datatype failure = RenderThrew  \<comment> \<open>no handler can be invoked: rendering threw\<close>

definition runExport :: "platform \<Rightarrow> transport \<Rightarrow> console \<Rightarrow> failure + console" where
  "runExport E net s =
     (case canExport (response s) of
        None \<Rightarrow> Inl RenderThrew
      | Some ok \<Rightarrow>
          if response s = None \<or> \<not> ok then Inr (s\<lparr>error := Some err_no_result\<rparr>)
          else
            (let s0 = pushLog msg_export_started (s\<lparr>error := None, exporting := True\<rparr>);
                 s1 = run_session E Export net (s0\<lparr>requests := requests s0 @ [export_endpoint]\<rparr>)
             in Inr (s1\<lparr>exporting := False\<rparr>)))"

subsection \<open>Auxiliary notions used in the statements\<close>

text \<open>The state of a freshly mounted component: the initial values of its hooks.\<close>

definition mounted :: "string \<Rightarrow> string list \<Rightarrow> console" where
  "mounted cid files =
     \<lparr>centerId = cid, ocrFiles = files, logs = [], response = None, finalLinks = [],
      error = None, analyzing = False, exporting = False, streamingReceived = False,
      requests = []\<rparr>"

text \<open>The lines that the \<open>debug_logs\<close> of a result payload contribute when they are appended.\<close>

definition debug_lines :: "json \<Rightarrow> logline list" where
  "debug_lines d =
     (case prop_of d ''debug_logs'' of
        Some (JArr xs) \<Rightarrow> map (\<lambda>ln. Plain (''[BE] '' @ ln)) (string_elems xs)
      | _ \<Rightarrow> [])"

text \<open>A trimmed line that carries a \<open>dbg\<close> event, and one that carries a \<open>done\<close> event.\<close>

definition event_of_line :: "platform \<Rightarrow> string \<Rightarrow> json option" where
  "event_of_line E line =
     (if startsWith line ''data:'' then
        (case JSON_parse E (trim (drop (length ''data:'') line)) of
           None \<Rightarrow> None
         | Some payload \<Rightarrow> prop_of payload ''event'')
      else None)"

definition is_dbg_line :: "platform \<Rightarrow> string \<Rightarrow> bool" where
  "is_dbg_line E line = (event_of_line E line = Some (JStr ''dbg''))"

definition is_done_line :: "platform \<Rightarrow> string \<Rightarrow> bool" where
  "is_done_line E line = (event_of_line E line = Some (JStr ''done''))"

subsection \<open>A platform for the examples\<close>

text \<open>
  The examples below run the handlers on concrete streams. \<open>sample_platform\<close> agrees with
  \<open>JSON.parse\<close>, \<open>String\<close> and \<open>JSON.stringify\<close> on every text and value that these
  streams make the handlers pass to them; \<open>{not json}\<close> is the one text that
  \<open>JSON.parse\<close> rejects.
\<close>

definition envelope :: "string \<Rightarrow> json \<Rightarrow> json" where
  "envelope kind d = JObj [(''event'', JStr kind), (''data'', d)]"

definition sample_texts :: "(string \<times> json) list" where
  \<open>sample_texts =
     [(''{"event":"dbg","data":"step1"}'', envelope ''dbg'' (JStr ''step1'')),
      (''{"event":"dbg","data":"late"}'', envelope ''dbg'' (JStr ''late'')),
      (''{"event":"done","data":null}'', envelope ''done'' JNull),
      (''{"event":"result","data":{"x":1}}'', envelope ''result'' (JObj [(''x'', JNum 1)])),
      (''{"event":"result","data":{"a":1}}'', envelope ''result'' (JObj [(''a'', JNum 1)])),
      (''{"event":"result","data":{"b":2}}'', envelope ''result'' (JObj [(''b'', JNum 2)])),
      (''{"event":"result","data":{"ocr_snapshot_url":"u"}}'',
         envelope ''result'' (JObj [(''ocr_snapshot_url'', JStr ''u'')])),
      (''{"event":"result","data":{"debug_logs":["x"]}}'',
         envelope ''result'' (JObj [(''debug_logs'', JArr [JStr ''x''])])),
      (''{"event":"result","data":{"debug_logs":[1,"x"]}}'',
         envelope ''result'' (JObj [(''debug_logs'', JArr [JNum 1, JStr ''x''])]))]\<close>

definition sample_String :: "json option \<Rightarrow> string option" where
  "sample_String v = (case v of Some (JStr t) \<Rightarrow> Some t | _ \<Rightarrow> None)"

definition sample_platform :: platform where
  "sample_platform =
     \<lparr>JSON_parse = map_of sample_texts, String_of = sample_String,
      JSON_stringify = (\<lambda>v. [])\<rparr>"

text \<open>Scenario A of the specification, and the streams of the examples.\<close>

definition frame_dbg_step1 :: string where
  \<open>frame_dbg_step1 = ''data: {"event":"dbg","data":"step1"}\<newline>\<newline>''\<close>

definition frame_dbg_late :: string where
  \<open>frame_dbg_late = ''data: {"event":"dbg","data":"late"}\<newline>\<newline>''\<close>

definition frame_done :: string where
  \<open>frame_done = ''data: {"event":"done","data":null}\<newline>\<newline>''\<close>

definition frame_result_x :: string where
  \<open>frame_result_x = ''data: {"event":"result","data":{"x":1}}\<newline>\<newline>''\<close>

definition frame_result_a :: string where
  \<open>frame_result_a = ''data: {"event":"result","data":{"a":1}}\<newline>\<newline>''\<close>

definition frame_result_b :: string where
  \<open>frame_result_b = ''data: {"event":"result","data":{"b":2}}\<newline>\<newline>''\<close>

definition frame_result_link :: string where
  \<open>frame_result_link = ''data: {"event":"result","data":{"ocr_snapshot_url":"u"}}\<newline>\<newline>''\<close>

definition frame_result_logs :: string where
  \<open>frame_result_logs = ''data: {"event":"result","data":{"debug_logs":["x"]}}\<newline>\<newline>''\<close>

definition frame_result_mixed_logs :: string where
  \<open>frame_result_mixed_logs = ''data: {"event":"result","data":{"debug_logs":[1,"x"]}}\<newline>\<newline>''\<close>

definition frame_two_data_lines :: string where
  \<open>frame_two_data_lines =
     ''data: {"event":"dbg","data":"step1"}\<newline>data: {"event":"dbg","data":"late"}\<newline>\<newline>''\<close>

definition ready :: console where
  "ready = mounted ''c1'' [''scan.pdf'']"

text \<open>A console whose analysis has produced one non-empty group of codes for a maker.\<close>

definition analyzed :: console where
  "analyzed = ready\<lparr>response := Some (JObj [(''maker_cds'', JObj [(''m'', JArr [JStr ''c''])])])\<rparr>"

section \<open>Properties\<close>

subsection \<open>What each step does to the logs and to the streamed-log flag\<close>

lemma logs_pushLog [simp]: "logs (pushLog m s) = logs s @ [Stamped m]"
  by (simp add: pushLog_def)

lemma pushLog_other [simp]:
  "response (pushLog m s) = response s"
  "finalLinks (pushLog m s) = finalLinks s"
  "streamingReceived (pushLog m s) = streamingReceived s"
  "requests (pushLog m s) = requests s"
  "error (pushLog m s) = error s"
  by (simp_all add: pushLog_def)

lemma logs_append_debug_logs:
  "logs (append_debug_logs d s) = logs s @ (if streamingReceived s then [] else debug_lines d)"
  by (auto simp: append_debug_logs_def debug_lines_def Let_def split: option.splits json.splits)

lemma append_debug_logs_other [simp]:
  "response (append_debug_logs d s) = response s"
  "finalLinks (append_debug_logs d s) = finalLinks s"
  "streamingReceived (append_debug_logs d s) = streamingReceived s"
  "requests (append_debug_logs d s) = requests s"
  "error (append_debug_logs d s) = error s"
  by (auto simp: append_debug_logs_def Let_def split: option.splits json.splits)

lemma add_link_other [simp]:
  "response (add_link n u s) = response s"
  "logs (add_link n u s) = logs s"
  "streamingReceived (add_link n u s) = streamingReceived s"
  "requests (add_link n u s) = requests s"
  "error (add_link n u s) = error s"
  by (simp_all add: add_link_def)

lemma logs_analyze_result:
  "logs (analyze_result d s) = logs s @ (if streamingReceived s then [] else debug_lines d)"
  by (simp add: analyze_result_def Let_def logs_append_debug_logs split: option.splits)

lemma logs_export_result:
  "logs (export_result d s) = logs s @ (if streamingReceived s then [] else debug_lines d)"
  by (simp add: export_result_def Let_def logs_append_debug_logs split: option.splits)

lemma flag_analyze_result [simp]: "streamingReceived (analyze_result d s) = streamingReceived s"
  by (simp add: analyze_result_def Let_def split: option.splits)

lemma flag_export_result [simp]: "streamingReceived (export_result d s) = streamingReceived s"
  by (simp add: export_result_def Let_def split: option.splits)

lemma logs_on_result:
  "logs (on_result ph (Some d) s) =
     logs s @ (if is_object (Some d) \<and> \<not> streamingReceived s then debug_lines d else [])"
  by (simp add: on_result_def logs_analyze_result logs_export_result split: phase.splits)

lemma logs_on_result_undefined [simp]: "logs (on_result ph None s) = logs s"
  by (simp add: on_result_def)

lemma flag_on_result [simp]: "streamingReceived (on_result ph data s) = streamingReceived s"
  by (simp add: on_result_def split: option.splits phase.splits)

lemma on_result_prefix: "prefix (logs s) (logs (on_result ph data s))"
  by (cases data) (simp_all add: logs_on_result)

lemma on_data_prefix: "prefix (logs s) (logs (snd (on_data E ph raw s)))"
  by (simp add: on_data_def Let_def on_result_prefix split: option.splits json.splits)

lemma data_not_comment: "startsWith line ''data:'' \<Longrightarrow> \<not> startsWith line '':''"
  by (cases line) (auto simp: startsWith_def)

lemma on_data_flag:
  "streamingReceived (snd (on_data E ph raw s)) =
     (streamingReceived s \<or>
      (case JSON_parse E raw of None \<Rightarrow> False
       | Some payload \<Rightarrow> prop_of payload ''event'' = Some (JStr ''dbg'')))"
  by (simp add: on_data_def Let_def split: option.splits json.splits)

lemma line_step_prefix: "prefix (logs s) (logs (snd (line_step E ph line s)))"
  by (simp add: line_step_def on_data_prefix)

lemma line_step_flag:
  "streamingReceived (snd (line_step E ph line s)) = (streamingReceived s \<or> is_dbg_line E line)"
  by (auto simp: line_step_def on_data_flag is_dbg_line_def event_of_line_def
      dest: data_not_comment split: option.splits)

lemma process_lines_prefix: "prefix (logs s) (logs (snd (process_lines E ph ls s)))"
proof (induction ls arbitrary: s)
  case Nil
  show ?case by simp
next
  case (Cons l ls)
  obtain b s' where st: "line_step E ph l s = (b, s')" by (cases "line_step E ph l s")
  have p1: "prefix (logs s) (logs s')" using line_step_prefix [of s E ph l] st by simp
  show ?case
  proof (cases b)
    case True
    then show ?thesis using st p1 by simp
  next
    case False
    then show ?thesis using st p1 Cons.IH [of s'] by (auto intro: prefix_order.trans)
  qed
qed

lemma process_lines_flag:
  "streamingReceived s \<Longrightarrow> streamingReceived (snd (process_lines E ph ls s))"
proof (induction ls arbitrary: s)
  case Nil
  then show ?case by simp
next
  case (Cons l ls)
  obtain b s' where st: "line_step E ph l s = (b, s')" by (cases "line_step E ph l s")
  have f1: "streamingReceived s'" using line_step_flag [of E ph l s] st Cons.prems by simp
  show ?case using st f1 Cons.IH [of s'] by (cases b) simp_all
qed

lemma process_parts_prefix: "prefix (logs s) (logs (snd (process_parts E ph ps s)))"
proof (induction ps arbitrary: s)
  case Nil
  show ?case by simp
next
  case (Cons p ps)
  obtain f1 s1 where a: "process_lines E ph (frame_lines p) s = (f1, s1)"
    by (cases "process_lines E ph (frame_lines p) s")
  obtain f2 s2 where b: "process_parts E ph ps s1 = (f2, s2)"
    by (cases "process_parts E ph ps s1")
  have "prefix (logs s) (logs s1)" using process_lines_prefix [of s E ph "frame_lines p"] a by simp
  moreover have "prefix (logs s1) (logs s2)" using Cons.IH [of s1] b by simp
  ultimately show ?case using a b by (auto intro: prefix_order.trans)
qed

lemma process_parts_flag:
  "streamingReceived s \<Longrightarrow> streamingReceived (snd (process_parts E ph ps s))"
proof (induction ps arbitrary: s)
  case Nil
  then show ?case by simp
next
  case (Cons p ps)
  obtain f1 s1 where a: "process_lines E ph (frame_lines p) s = (f1, s1)"
    by (cases "process_lines E ph (frame_lines p) s")
  obtain f2 s2 where b: "process_parts E ph ps s1 = (f2, s2)"
    by (cases "process_parts E ph ps s1")
  have "streamingReceived s1" using process_lines_flag [OF Cons.prems, of E ph "frame_lines p"] a by simp
  then have "streamingReceived s2" using Cons.IH [of s1] b by simp
  then show ?case using a b by simp
qed

lemma read_loop_prefix: "prefix (logs s) (logs (snd (read_loop E ph cs buf s)))"
proof (induction cs arbitrary: buf s)
  case Nil
  show ?case by simp
next
  case (Cons c cs)
  let ?parts = "split_frames [] (buf @ c)"
  obtain f s' where a: "process_parts E ph (butlast ?parts) s = (f, s')"
    by (cases "process_parts E ph (butlast ?parts) s")
  have p1: "prefix (logs s) (logs s')"
    using process_parts_prefix [of s E ph "butlast ?parts"] a by simp
  show ?case
  proof (cases f)
    case True
    then show ?thesis using a p1 by simp
  next
    case False
    then show ?thesis using a p1 Cons.IH [of s' "last ?parts"]
      by (auto intro: prefix_order.trans)
  qed
qed

lemma read_loop_flag:
  "streamingReceived s \<Longrightarrow> streamingReceived (snd (read_loop E ph cs buf s))"
proof (induction cs arbitrary: buf s)
  case Nil
  then show ?case by simp
next
  case (Cons c cs)
  let ?parts = "split_frames [] (buf @ c)"
  obtain f s' where a: "process_parts E ph (butlast ?parts) s = (f, s')"
    by (cases "process_parts E ph (butlast ?parts) s")
  have f1: "streamingReceived s'"
    using process_parts_flag [OF Cons.prems, of E ph "butlast ?parts"] a by simp
  show ?case using a f1 Cons.IH [of s' "last ?parts"] by (cases f) simp_all
qed

lemma logs_catch_error: "logs (catch_error ph m s) = logs s @ [Stamped (error_message ph)]"
  by (simp add: catch_error_def)

lemma flag_catch_error [simp]: "streamingReceived (catch_error ph m s) = streamingReceived s"
  by (simp add: catch_error_def)

lemma run_session_prefix: "prefix (logs s) (logs (run_session E ph net s))"
proof (cases net)
  case (Body chunks ending)
  obtain f s' where a: "read_loop E ph chunks [] s = (f, s')"
    by (cases "read_loop E ph chunks [] s")
  have "prefix (logs s) (logs s')" using read_loop_prefix [of s E ph chunks "[]"] a by simp
  then show ?thesis using Body a
    by (cases f; cases ending) (auto simp: run_session_def logs_catch_error intro: prefix_order.trans)
qed (simp_all add: run_session_def logs_catch_error)

lemma run_session_flag:
  "streamingReceived s \<Longrightarrow> streamingReceived (run_session E ph net s)"
proof (cases net)
  case (Body chunks ending)
  assume fl: "streamingReceived s"
  obtain f s' where a: "read_loop E ph chunks [] s = (f, s')"
    by (cases "read_loop E ph chunks [] s")
  have "streamingReceived s'" using read_loop_flag [OF fl, of E ph chunks "[]"] a by simp
  then show ?thesis using Body a
    by (cases f; cases ending) (auto simp: run_session_def)
qed (simp_all add: run_session_def)

lemma response_analyze_result: "response (analyze_result d s) = Some d"
  by (simp add: analyze_result_def Let_def split: option.splits)

lemma response_export_result:
  "response (export_result d s) =
     (case prop_of d ''output_spreadsheet_url'' of
        None \<Rightarrow> response s
      | Some u \<Rightarrow> if truthy (Some u) then export_set_url u (response s) else response s)"
  by (simp add: export_result_def Let_def split: option.splits)

lemma export_set_url_absent: "export_set_url u None = None"
  by (simp add: export_set_url_def)

lemma export_set_url_fields:
  "\<exists>p'. export_set_url u (Some p) = Some p' \<and>
     (\<forall>k. k \<noteq> ''output_spreadsheet_url'' \<longrightarrow> map_of (spread p') k = map_of (spread p) k)"
  by (simp add: export_set_url_def update_conv')

lemma line_step_breaks: "fst (line_step E ph line s) = is_done_line E line"
  by (auto simp: line_step_def on_data_def Let_def is_done_line_def event_of_line_def
      dest: data_not_comment split: option.splits json.splits)

subsection \<open>The frame decoder and the chunk boundaries\<close>

text \<open>
  Cutting a text into frames commutes with cutting it into chunks: the frames of \<open>x @ y\<close>
  are the complete frames of \<open>x\<close> followed by the frames of the retained tail of \<open>x\<close>
  with \<open>y\<close> appended. A delimiter that spans two chunks is found in the second step.
\<close>

lemma split_frames_nonempty [simp]: "split_frames acc x \<noteq> []"
  by (induction acc x rule: split_frames.induct) simp_all

lemma split_frames_acc:
  "split_frames acc x = (acc @ hd (split_frames [] x)) # tl (split_frames [] x)"
proof (induction x arbitrary: acc rule: induct_list012)
  case 1
  show ?case by simp
next
  case (2 a)
  show ?case by simp
next
  case (3 a b rest)
  show ?case
  proof (cases "a = nl \<and> b = nl")
    case True
    then show ?thesis by simp
  next
    case False
    have "split_frames acc (a # b # rest) = split_frames (acc @ [a]) (b # rest)"
      using False by auto
    also have "\<dots> = ((acc @ [a]) @ hd (split_frames [] (b # rest))) # tl (split_frames [] (b # rest))"
      by (rule "3.IH"(2))
    finally have l: "split_frames acc (a # b # rest) =
        (acc @ a # hd (split_frames [] (b # rest))) # tl (split_frames [] (b # rest))"
      by simp
    have "split_frames [] (a # b # rest) = split_frames [a] (b # rest)"
      using False by auto
    also have "\<dots> = ([a] @ hd (split_frames [] (b # rest))) # tl (split_frames [] (b # rest))"
      by (rule "3.IH"(2))
    finally have r: "split_frames [] (a # b # rest) =
        (a # hd (split_frames [] (b # rest))) # tl (split_frames [] (b # rest))"
      by simp
    show ?thesis unfolding l r by simp
  qed
qed

lemma split_frames_single:
  "split_frames acc x = [f] \<Longrightarrow> f = acc @ x"
  by (induction acc x rule: split_frames.induct) (auto split: if_splits)

lemma split_frames_append:
  "split_frames [] (x @ y) =
     butlast (split_frames [] x) @ split_frames [] (last (split_frames [] x) @ y)"
proof (induction x rule: induct_list012)
  case 1
  show ?case by simp
next
  case (2 a)
  show ?case by simp
next
  case (3 a b rest)
  show ?case
  proof (cases "a = nl \<and> b = nl")
    case True
    then show ?thesis using "3.IH"(1) by simp
  next
    case False
    let ?S = "split_frames [] (b # rest)"
    let ?T = "split_frames [] (b # rest @ y)"
    have T: "?T = butlast ?S @ split_frames [] (last ?S @ y)"
      using "3.IH"(2) by simp
    have l: "split_frames [] ((a # b # rest) @ y) = (a # hd ?T) # tl ?T"
      using False split_frames_acc [of "[a]" "b # rest @ y"] by auto
    have r: "split_frames [] (a # b # rest) = (a # hd ?S) # tl ?S"
      using False split_frames_acc [of "[a]" "b # rest"] by auto
    show ?thesis
    proof (cases "tl ?S")
      case Nil
      then have S: "?S = [hd ?S]" by (cases ?S) simp_all
      then have f: "hd ?S = b # rest" using split_frames_single [of "[]" "b # rest" "hd ?S"] by simp
      have "split_frames [] ((a # b # rest) @ y) = split_frames [a] (b # rest @ y)"
        using False by auto
      moreover have "split_frames [] ((a # b # rest) @ y) = split_frames [] ((a # hd ?S) @ y)"
        using f by simp
      ultimately show ?thesis unfolding r using Nil by simp
    next
      case (Cons g gs)
      then have S: "?S = hd ?S # g # gs" by (cases ?S) simp_all
      have bl: "butlast ?S = hd ?S # butlast (g # gs)" by (subst S) simp
      have la: "last ?S = last (g # gs)" by (subst S) simp
      show ?thesis unfolding l r T bl la using Cons by simp
    qed
  qed
qed

lemma split_frames_tail:
  "split_frames [] (last (split_frames [] x)) = [last (split_frames [] x)]"
proof -
  let ?S = "split_frames [] x"
  have "?S = butlast ?S @ split_frames [] (last ?S)"
    using split_frames_append [of x "[]"] by simp
  moreover have "?S = butlast ?S @ [last ?S]" by simp
  ultimately show ?thesis by (metis same_append_eq)
qed

lemma process_parts_append:
  "process_parts E ph (xs @ ys) s =
     (case process_parts E ph xs s of
        (f1, s1) \<Rightarrow> (case process_parts E ph ys s1 of (f2, s2) \<Rightarrow> (f1 \<or> f2, s2)))"
  by (induction xs arbitrary: s) (auto split: prod.splits)

text \<open>
  So, as long as no \<open>done\<close> event sets \<open>finished\<close>, the read loop does to the state
  what one pass over the frames of the whole text does, whatever the chunks are.
\<close>

lemma read_loop_whole:
  assumes "split_frames [] buf = [buf]"
    and "\<not> fst (process_parts E ph (butlast (split_frames [] (buf @ concat chunks))) s)"
  shows "read_loop E ph chunks buf s =
           (False, snd (process_parts E ph (butlast (split_frames [] (buf @ concat chunks))) s))"
  using assms
proof (induction chunks arbitrary: buf s)
  case Nil
  then show ?case by simp
next
  case (Cons c cs)
  let ?parts = "split_frames [] (buf @ c)"
  let ?rest = "split_frames [] (last ?parts @ concat cs)"
  have whole: "split_frames [] (buf @ concat (c # cs)) = butlast ?parts @ ?rest"
    using split_frames_append [of "buf @ c" "concat cs"] by simp
  have fr: "butlast (split_frames [] (buf @ concat (c # cs))) = butlast ?parts @ butlast ?rest"
    unfolding whole by (simp add: butlast_append)
  obtain f1 s1 where a: "process_parts E ph (butlast ?parts) s = (f1, s1)"
    by (cases "process_parts E ph (butlast ?parts) s")
  obtain f2 s2 where b: "process_parts E ph (butlast ?rest) s1 = (f2, s2)"
    by (cases "process_parts E ph (butlast ?rest) s1")
  have all: "process_parts E ph (butlast (split_frames [] (buf @ concat (c # cs)))) s = (f1 \<or> f2, s2)"
    unfolding fr by (simp add: process_parts_append a b)
  have nf: "\<not> f1" "\<not> f2" using Cons.prems(2) all by simp_all
  have "read_loop E ph cs (last ?parts) s1 = (False, snd (process_parts E ph (butlast ?rest) s1))"
    using Cons.IH [of "last ?parts" s1] split_frames_tail [of "buf @ c"] b nf by simp
  then show ?case using a b nf all by simp
qed

lemma chunking_independent_without_done:
  assumes "concat chunks = concat chunks'"
    and "\<not> fst (process_parts E ph (butlast (split_frames [] (concat chunks))) s)"
  shows "read_loop E ph chunks [] s = read_loop E ph chunks' [] s"
  using assms read_loop_whole [of "[]" E ph chunks s] read_loop_whole [of "[]" E ph chunks' s]
  by simp

text \<open>Once \<open>finished\<close> is set, the chunks that have not been read are never read.\<close>

lemma read_loop_stops_after_done:
  "fst (process_parts E ph (butlast (split_frames [] (buf @ chunk))) s) \<Longrightarrow>
   read_loop E ph (chunk # chunks) buf s =
     (True, snd (process_parts E ph (butlast (split_frames [] (buf @ chunk))) s))"
  by (cases "process_parts E ph (butlast (split_frames [] (buf @ chunk))) s") (auto simp: Let_def)

subsection \<open>The final links of the export handler\<close>

text \<open>
  The export handler inserts a link only when its url is not yet present; for a url that is
  a primitive value the urls of the list stay pairwise distinct.
\<close>

lemma strict_eq_primitive: "\<not> is_object (Some u) \<Longrightarrow> strict_eq a u = (a = u)"
  by (cases a; cases u) simp_all

lemma export_add_link_present:
  "list_ex (\<lambda>item. strict_eq (url item) u) prev \<Longrightarrow> export_add_link u prev = prev"
  by (simp add: export_add_link_def)

lemma export_add_link_distinct:
  assumes "\<not> is_object (Some u)" and "distinct (map url prev)"
  shows "distinct (map url (export_add_link u prev))"
proof -
  have "list_ex (\<lambda>item. strict_eq (url item) u) prev = (u \<in> url ` set prev)"
    using assms(1) by (auto simp: list_ex_iff strict_eq_primitive)
  then show ?thesis using assms(2) by (simp add: export_add_link_def)
qed

subsection \<open>The scenarios of the specification\<close>

text \<open>
  Scenario A: a log event, a result and the completion. Scenario B: a keep-alive comment
  gives no log line. Scenario C: a data line that is not JSON gives one raw log line.
\<close>

lemma scenario_A:
  "logs (runAnalyze sample_platform (Body [frame_dbg_step1 @ frame_result_x @ frame_done] Closed) ready) =
     [Stamped msg_analyze_started, Stamped ''[BE] step1'', Stamped msg_backend_done] \<and>
   response (runAnalyze sample_platform (Body [frame_dbg_step1 @ frame_result_x @ frame_done] Closed) ready) =
     Some (JObj [(''x'', JNum 1)])"
  by code_simp

lemma scenario_B:
  "logs (run_session sample_platform Analyze (Body ['': keep-alive\<newline>\<newline>''] Closed) ready) = []"
  by code_simp

lemma scenario_C:
  "logs (run_session sample_platform Analyze (Body [''data: {not json}\<newline>\<newline>''] Closed) ready) =
     [Stamped ''[BE] {not json}'']"
  by code_simp

subsection \<open>C1: what a result event does to the result\<close>

text \<open>
  C1, as stated, fails: in the analyze phase a result event replaces the result as a whole
  (\<open>setResponse(data)\<close>). The result events \<open>{a:1}\<close> then \<open>{b:2}\<close> leave
  \<open>{b:2}\<close>; the field \<open>a\<close> is dropped.
\<close>

theorem C1_merge_law_counterexample:
  "response (runAnalyze sample_platform (Body [frame_result_a @ frame_result_b] Closed) ready) =
     Some (JObj [(''b'', JNum 2)]) \<and>
   response (runAnalyze sample_platform (Body [frame_result_a @ frame_result_b] Closed) ready) \<noteq>
     Some (JObj [(''a'', JNum 1), (''b'', JNum 2)])"
  by code_simp

text \<open>
  C1 (amended): for every result event whose payload is an object, the analyze phase
  adopts the payload as the new result, whether or not a result exists; the export phase
  leaves an absent result absent and, in an existing result, keeps the previous value of
  every field that is absent from the payload.
\<close>

theorem C1_result_adopted_or_overlaid:
  assumes "is_object (Some d)"
  shows "response (on_result Analyze (Some d) s) = Some d \<and>
         (response s = None \<longrightarrow> response (on_result Export (Some d) s) = None) \<and>
         (\<forall>p. response s = Some p \<longrightarrow>
            (\<exists>p'. response (on_result Export (Some d) s) = Some p' \<and>
               (\<forall>k. prop_of d k = None \<longrightarrow> map_of (spread p') k = map_of (spread p) k)))"
proof (intro conjI allI impI)
  show "response (on_result Analyze (Some d) s) = Some d"
    using assms by (simp add: on_result_def response_analyze_result)
next
  assume "response s = None"
  then show "response (on_result Export (Some d) s) = None"
    using assms
    by (simp add: on_result_def response_export_result export_set_url_absent split: option.splits)
next
  fix p
  assume p: "response s = Some p"
  have r: "response (on_result Export (Some d) s) = response (export_result d s)"
    using assms by (simp add: on_result_def)
  show "\<exists>p'. response (on_result Export (Some d) s) = Some p' \<and>
          (\<forall>k. prop_of d k = None \<longrightarrow> map_of (spread p') k = map_of (spread p) k)"
  proof (cases "prop_of d ''output_spreadsheet_url''")
    case None
    then show ?thesis using p r by (simp add: response_export_result)
  next
    case (Some u)
    show ?thesis
    proof (cases "truthy (Some u)")
      case False
      then show ?thesis using p r Some by (simp add: response_export_result)
    next
      case True
      obtain p' where p': "export_set_url u (Some p) = Some p'"
        and keep: "\<forall>k. k \<noteq> ''output_spreadsheet_url'' \<longrightarrow> map_of (spread p') k = map_of (spread p) k"
        using export_set_url_fields [of u p] by blast
      have "response (on_result Export (Some d) s) = Some p'"
        using p r Some True p' by (simp add: response_export_result)
      moreover have "\<forall>k. prop_of d k = None \<longrightarrow> map_of (spread p') k = map_of (spread p) k"
      proof (intro allI impI)
        fix k
        assume "prop_of d k = None"
        then have "k \<noteq> ''output_spreadsheet_url''" using Some by auto
        then show "map_of (spread p') k = map_of (spread p) k" using keep by blast
      qed
      ultimately show ?thesis by blast
    qed
  qed
qed

text \<open>
  The amended C1 at a payload \<open>{b:2}\<close>, over the absent result and over the result
  \<open>{a:1}\<close>.
\<close>

theorem C1_result_adopted_or_overlaid_witness:
  "is_object (Some (JObj [(''b'', JNum 2)])) \<and>
   response (on_result Analyze (Some (JObj [(''b'', JNum 2)]))
               (ready\<lparr>response := Some (JObj [(''a'', JNum 1)])\<rparr>)) = Some (JObj [(''b'', JNum 2)]) \<and>
   response ready = None \<and>
   response (on_result Export (Some (JObj [(''b'', JNum 2)])) ready) = None \<and>
   (\<exists>p'. response (on_result Export (Some (JObj [(''b'', JNum 2)]))
                      (ready\<lparr>response := Some (JObj [(''a'', JNum 1)])\<rparr>)) = Some p' \<and>
         map_of (spread p') ''a'' = Some (JNum 1))"
proof -
  let ?d = "JObj [(''b'', JNum 2)]"
  let ?s = "ready\<lparr>response := Some (JObj [(''a'', JNum 1)])\<rparr>"
  have obj: "is_object (Some ?d)" by simp
  have absent: "response ready = None" by (simp add: ready_def mounted_def)
  have a: "prop_of ?d ''a'' = None" by simp
  show ?thesis
    using obj absent a C1_result_adopted_or_overlaid [OF obj, of ready]
      C1_result_adopted_or_overlaid [OF obj, of ?s]
    by fastforce
qed

subsection \<open>C2: frames after a done event\<close>

text \<open>
  C2: after a \<open>done\<close> event no later frame of the session is dispatched, also not a
  frame of the same chunk. The handler sets \<open>finished\<close> and leaves the line loop, but
  the loop over the parts of the chunk goes on: on the chunk made of a \<open>done\<close> frame
  and a \<open>dbg\<close> frame, the \<open>dbg\<close> event is logged after the completion line.
\<close>

theorem C2_frame_after_done_is_dispatched:
  "logs (runAnalyze sample_platform (Body [frame_done @ frame_dbg_late] Closed) ready) =
     [Stamped msg_analyze_started, Stamped msg_backend_done, Stamped ''[BE] late''] \<and>
   runExport sample_platform (Body [frame_done @ frame_dbg_late] Closed) analyzed =
     Inr (analyzed\<lparr>logs := [Stamped msg_export_started, Stamped msg_export_done,
                                Stamped ''[BE] late''],
                      streamingReceived := True, requests := [export_endpoint]\<rparr>)"
  by code_simp

subsection \<open>C3: independence of the chunk boundaries\<close>

text \<open>
  C3: the dispatched events do not depend on how the stream is cut into chunks. The
  same text, a \<open>done\<close> frame followed by a \<open>dbg\<close> frame, gives three log lines when
  it arrives as one chunk and two when it arrives as two chunks: the frames that follow
  \<open>done\<close> in its own chunk are dispatched, those of later chunks are not.
\<close>

theorem C3_chunking_changes_the_logs:
  "concat [frame_done @ frame_dbg_late] = concat [frame_done, frame_dbg_late] \<and>
   logs (runAnalyze sample_platform (Body [frame_done @ frame_dbg_late] Closed) ready) =
     [Stamped msg_analyze_started, Stamped msg_backend_done, Stamped ''[BE] late''] \<and>
   logs (runAnalyze sample_platform (Body [frame_done, frame_dbg_late] Closed) ready) =
     [Stamped msg_analyze_started, Stamped msg_backend_done]"
  by code_simp

subsection \<open>C4: the debug_logs of a result\<close>

text \<open>
  C4, as stated, fails in both directions of its equivalence. The flag lives in a ref of
  the component, and no handler clears it: a second session without any \<open>dbg\<close> event
  does not append its \<open>debug_logs\<close> after a first session that had one. And elements
  that are not strings are skipped: \<open>[1, "x"]\<close> gives one line.
\<close>

theorem C4_dedup_counterexample:
  "logs (runAnalyze sample_platform (Body [frame_result_logs] Closed)
           (runAnalyze sample_platform (Body [frame_dbg_step1] Closed) ready)) =
     [Stamped msg_analyze_started] \<and>
   logs (runAnalyze sample_platform (Body [frame_result_mixed_logs] Closed) ready) =
     [Stamped msg_analyze_started, Plain ''[BE] x'']"
  by code_simp

text \<open>
  C4 (amended): a result event whose payload is an object appends the lines of
  \<open>debug_logs\<close> (one plain line for each string element of the array, nothing for other
  elements or when it is not an array) exactly when the streamed-log flag is unset; every
  other payload appends nothing. A line sets the flag exactly when it carries a \<open>dbg\<close>
  event, and once set the flag stays set for the rest of the session. So a \<open>dbg\<close> event
  earlier in the session suppresses the array, and with the flag unset the array is
  appended.
\<close>

theorem C4_debug_logs_fallback:
  "logs (on_result ph (Some d) s) =
     logs s @ (if is_object (Some d) \<and> \<not> streamingReceived s then debug_lines d else []) \<and>
   streamingReceived (snd (line_step E ph line s)) = (streamingReceived s \<or> is_dbg_line E line) \<and>
   (streamingReceived s \<longrightarrow>
      streamingReceived (snd (process_lines E ph ls s)) \<and>
      streamingReceived (snd (process_parts E ph ps s)) \<and>
      streamingReceived (snd (read_loop E ph cs buf s)))"
  using logs_on_result line_step_flag process_lines_flag process_parts_flag read_loop_flag
  by blast

text \<open>
  The amended C4 at a console whose flag is set.
\<close>

theorem C4_debug_logs_fallback_witness:
  "streamingReceived (ready\<lparr>streamingReceived := True\<rparr>) \<and>
   streamingReceived (snd (read_loop sample_platform Analyze [frame_result_logs] []
                             (ready\<lparr>streamingReceived := True\<rparr>))) \<and>
   logs (on_result Analyze (Some (JObj [(''debug_logs'', JArr [JStr ''x''])]))
           (ready\<lparr>streamingReceived := True\<rparr>)) = logs (ready\<lparr>streamingReceived := True\<rparr>)"
proof -
  let ?s = "ready\<lparr>streamingReceived := True\<rparr>"
  have fl: "streamingReceived ?s" by simp
  show ?thesis
    using fl C4_debug_logs_fallback [of Analyze "JObj [(''debug_logs'', JArr [JStr ''x''])]" ?s
        sample_platform "[]" "[]" "[]" "[frame_result_logs]" "[]"]
    by simp
qed

subsection \<open>C5: final links with the same url\<close>

text \<open>
  C5: the final links never hold two entries with the same url. The export handler
  looks for the url before it inserts; the analyze handler appends without looking. Two
  result events of one analyze session that carry the same \<open>ocr_snapshot_url\<close> leave
  two links with that url.
\<close>

theorem C5_analyze_duplicates_a_link:
  "map url (finalLinks (runAnalyze sample_platform
                          (Body [frame_result_link, frame_result_link] Closed) ready)) =
     [JStr ''u'', JStr ''u'']"
  by code_simp

subsection \<open>C6: several data lines in one frame\<close>

text \<open>
  C6, as stated, fails: a frame with two data lines gives two events, here two log
  lines.
\<close>

theorem C6_first_data_line_counterexample:
  "logs (runAnalyze sample_platform (Body [frame_two_data_lines] Closed) ready) =
     [Stamped msg_analyze_started, Stamped ''[BE] step1'', Stamped ''[BE] late'']"
  by code_simp

text \<open>
  C6 (amended): the lines of a frame are handled in order, each by \<open>line_step\<close>, up to
  and including the first line that carries a \<open>done\<close> event; only the lines after that
  one are skipped. So every data line before a \<open>done\<close> is parsed and dispatched.
\<close>

theorem C6_every_data_line_dispatched:
  "process_lines E ph ls s =
     (let dispatched = fold (\<lambda>l t. snd (line_step E ph l t))
                         (takeWhile (\<lambda>l. \<not> is_done_line E l) ls) s
      in case dropWhile (\<lambda>l. \<not> is_done_line E l) ls of
           [] \<Rightarrow> (False, dispatched)
         | d # skipped \<Rightarrow> (True, snd (line_step E ph d dispatched)))"
proof (induction ls arbitrary: s)
  case Nil
  show ?case by simp
next
  case (Cons l ls)
  obtain b s' where st: "line_step E ph l s = (b, s')" by (cases "line_step E ph l s")
  have b: "b = is_done_line E l" using line_step_breaks [of E ph l s] st by simp
  show ?case
  proof (cases b)
    case True
    then show ?thesis using st b by simp
  next
    case False
    then show ?thesis using st b Cons.IH [of s'] by simp
  qed
qed

subsection \<open>C7: a data line that is not JSON\<close>

text \<open>
  C7: for a data line whose payload \<open>JSON.parse\<close> rejects, the step ends normally
  (no \<open>break\<close>, no exception), appends exactly one line, made of the raw payload text,
  and changes nothing else; the loop goes on with the next line.
\<close>

theorem C7_malformed_json_logged:
  assumes "startsWith line ''data:''"
    and "JSON_parse E (trim (drop (length ''data:'') line)) = None"
  shows "line_step E ph line s =
           (False, s\<lparr>logs := logs s @ [Stamped (''[BE] '' @ trim (drop (length ''data:'') line))]\<rparr>) \<and>
         process_lines E ph (line # rest) s =
           process_lines E ph rest
             (s\<lparr>logs := logs s @ [Stamped (''[BE] '' @ trim (drop (length ''data:'') line))]\<rparr>)"
  using assms data_not_comment [OF assms(1)]
  by (simp add: line_step_def on_data_def pushLog_def)

text \<open>
  C7 at the line of scenario C.
\<close>

theorem C7_malformed_json_logged_witness:
  \<open>startsWith ''data: {not json}'' ''data:'' \<and>
   JSON_parse sample_platform (trim (drop (length ''data:'') ''data: {not json}'')) = None \<and>
   line_step sample_platform Analyze ''data: {not json}'' ready =
     (False, ready\<lparr>logs := [Stamped ''[BE] {not json}'']\<rparr>)\<close>
proof -
  have h1: "startsWith ''data: {not json}'' ''data:''" by code_simp
  have h2: "JSON_parse sample_platform (trim (drop (length ''data:'') ''data: {not json}'')) = None"
    by code_simp
  have t: "trim (drop (length ''data:'') ''data: {not json}'') = ''{not json}''" by code_simp
  have l: "logs ready = []" by (simp add: ready_def mounted_def)
  have c: "line_step sample_platform Analyze ''data: {not json}'' ready =
             (False, ready\<lparr>logs := logs ready @
                [Stamped (''[BE] '' @ trim (drop (length ''data:'') ''data: {not json}''))]\<rparr>)"
    using C7_malformed_json_logged [OF h1 h2, of Analyze ready "[]"] by (rule conjunct1)
  have "line_step sample_platform Analyze ''data: {not json}'' ready =
          (False, ready\<lparr>logs := [Stamped ''[BE] {not json}'']\<rparr>)"
    unfolding c t l by simp
  then show ?thesis using h1 h2 by blast
qed

subsection \<open>C8: validation in the analyze handler\<close>

text \<open>
  C8: with an empty key or no primary input file, \<open>runAnalyze\<close> only sets the error:
  whatever the network would do, the logs, the result, the final links and the list of
  requests are unchanged.
\<close>

theorem C8_analyze_validation:
  assumes "centerId s = [] \<or> ocrFiles s = []"
  shows "runAnalyze E net s =
           s\<lparr>error := Some (if centerId s = [] then err_no_center else err_no_files)\<rparr> \<and>
         logs (runAnalyze E net s) = logs s \<and>
         response (runAnalyze E net s) = response s \<and>
         finalLinks (runAnalyze E net s) = finalLinks s \<and>
         requests (runAnalyze E net s) = requests s"
  using assms by (auto simp: runAnalyze_def)

text \<open>
  C8 at a console without key and at one without files.
\<close>

theorem C8_analyze_validation_witness:
  "(centerId (mounted [] [''scan.pdf'']) = [] \<or> ocrFiles (mounted [] [''scan.pdf'']) = []) \<and>
   runAnalyze sample_platform (Body [frame_dbg_step1] Closed) (mounted [] [''scan.pdf'']) =
     (mounted [] [''scan.pdf''])\<lparr>error := Some err_no_center\<rparr> \<and>
   (centerId (mounted ''c1'' []) = [] \<or> ocrFiles (mounted ''c1'' []) = []) \<and>
   runAnalyze sample_platform (Body [frame_dbg_step1] Closed) (mounted ''c1'' []) =
     (mounted ''c1'' [])\<lparr>error := Some err_no_files\<rparr>"
proof -
  have h1: "centerId (mounted [] [''scan.pdf'']) = [] \<or> ocrFiles (mounted [] [''scan.pdf'']) = []"
    by (simp add: mounted_def)
  have h2: "centerId (mounted ''c1'' []) = [] \<or> ocrFiles (mounted ''c1'' []) = []"
    by (simp add: mounted_def)
  show ?thesis
    using h1 h2
      C8_analyze_validation [OF h1, of sample_platform "Body [frame_dbg_step1] Closed"]
      C8_analyze_validation [OF h2, of sample_platform "Body [frame_dbg_step1] Closed"]
    by (simp add: mounted_def)
qed

subsection \<open>C9: the logs are append-only\<close>

text \<open>
  C9: one step on a line, a whole session with any behaviour of the network (so every
  error path too) and a whole export extend the logs at the end. An analyze invocation that
  fails validation leaves them unchanged; one that passes starts from empty logs with the
  start line, whatever the logs were before.
\<close>

theorem C9_logs_append_only:
  "prefix (logs s) (logs (snd (line_step E ph line s))) \<and>
   prefix (logs s) (logs (run_session E ph net s)) \<and>
   (\<forall>s'. runExport E net s = Inr s' \<longrightarrow> prefix (logs s) (logs s')) \<and>
   (centerId s = [] \<or> ocrFiles s = [] \<longrightarrow> logs (runAnalyze E net s) = logs s) \<and>
   (centerId s \<noteq> [] \<and> ocrFiles s \<noteq> [] \<longrightarrow>
      prefix [Stamped msg_analyze_started] (logs (runAnalyze E net s)) \<and>
      logs (runAnalyze E net s) = logs (runAnalyze E net (s\<lparr>logs := []\<rparr>)))"
proof (intro conjI allI impI)
  show "prefix (logs s) (logs (snd (line_step E ph line s)))"
    by (rule line_step_prefix)
  show "prefix (logs s) (logs (run_session E ph net s))"
    by (rule run_session_prefix)
next
  fix s'
  assume ex: "runExport E net s = Inr s'"
  let ?s0 = "pushLog msg_export_started (s\<lparr>error := None, exporting := True\<rparr>)"
  let ?s1 = "run_session E Export net (?s0\<lparr>requests := requests ?s0 @ [export_endpoint]\<rparr>)"
  have "logs s' = logs s \<or> logs s' = logs ?s1"
    using ex by (auto simp: runExport_def Let_def split: option.splits if_splits)
  moreover have "prefix (logs s) (logs ?s1)"
    using run_session_prefix [of "?s0\<lparr>requests := requests ?s0 @ [export_endpoint]\<rparr>" E Export net]
    by (auto dest: append_prefixD)
  ultimately show "prefix (logs s) (logs s')" by auto
next
  assume "centerId s = [] \<or> ocrFiles s = []"
  then show "logs (runAnalyze E net s) = logs s" by (auto simp: runAnalyze_def)
next
  assume ok: "centerId s \<noteq> [] \<and> ocrFiles s \<noteq> []"
  let ?s0 = "pushLog msg_analyze_started
               (s\<lparr>error := None, analyzing := True, response := None, finalLinks := [], logs := []\<rparr>)"
  let ?s1 = "run_session E Analyze net (?s0\<lparr>requests := requests ?s0 @ [analyze_endpoint]\<rparr>)"
  have "logs (runAnalyze E net s) = logs ?s1"
    using ok by (simp add: runAnalyze_def Let_def)
  moreover have "prefix [Stamped msg_analyze_started] (logs ?s1)"
    using run_session_prefix [of "?s0\<lparr>requests := requests ?s0 @ [analyze_endpoint]\<rparr>" E Analyze net]
    by simp
  ultimately show "prefix [Stamped msg_analyze_started] (logs (runAnalyze E net s))" by simp
  show "logs (runAnalyze E net s) = logs (runAnalyze E net (s\<lparr>logs := []\<rparr>))"
    using ok by (simp add: runAnalyze_def Let_def pushLog_def)
qed

text \<open>
  C9 at an export that streams, an analyze that streams and an analyze that fails
  validation.
\<close>

theorem C9_logs_append_only_witness:
  "\<not> isl (runExport sample_platform (Body [frame_dbg_step1 @ frame_done] Closed) analyzed) \<and>
   prefix (logs analyzed)
     (logs (projr (runExport sample_platform (Body [frame_dbg_step1 @ frame_done] Closed) analyzed))) \<and>
   centerId ready \<noteq> [] \<and> ocrFiles ready \<noteq> [] \<and>
   prefix [Stamped msg_analyze_started]
     (logs (runAnalyze sample_platform (Body [frame_dbg_step1] Closed) ready)) \<and>
   (centerId (mounted [] []) = [] \<or> ocrFiles (mounted [] []) = []) \<and>
   logs (runAnalyze sample_platform NoBody (mounted [] [])) = logs (mounted [] [])"
proof -
  let ?net = "Body [frame_dbg_step1 @ frame_done] Closed"
  have r: "\<not> isl (runExport sample_platform ?net analyzed)" by code_simp
  then have e: "runExport sample_platform ?net analyzed =
                  Inr (projr (runExport sample_platform ?net analyzed))"
    by simp
  have ok: "centerId ready \<noteq> [] \<and> ocrFiles ready \<noteq> []" by (simp add: ready_def mounted_def)
  have bad: "centerId (mounted [] []) = [] \<or> ocrFiles (mounted [] []) = []"
    by (simp add: mounted_def)
  show ?thesis
    using r e ok bad
      C9_logs_append_only [of analyzed sample_platform Export "[]" ?net]
      C9_logs_append_only [of ready sample_platform Analyze "[]" "Body [frame_dbg_step1] Closed"]
      C9_logs_append_only [of "mounted [] []" sample_platform Analyze "[]" NoBody]
    by blast
qed

subsection \<open>C10: the frame of a result event in the export phase\<close>

text \<open>
  C10: in the export phase a result event never creates a result, changes no field of an
  existing result other than \<open>output_spreadsheet_url\<close>, and the new result depends on the
  payload only through its \<open>output_spreadsheet_url\<close>.
\<close>

theorem C10_export_result_frame:
  "(response s = None \<longrightarrow> response (on_result Export data s) = None) \<and>
   (\<forall>p. response s = Some p \<longrightarrow>
      (\<exists>p'. response (on_result Export data s) = Some p' \<and>
         (\<forall>k. k \<noteq> ''output_spreadsheet_url'' \<longrightarrow>
            map_of (spread p') k = map_of (spread p) k))) \<and>
   (\<forall>d d'. prop_of d ''output_spreadsheet_url'' = prop_of d' ''output_spreadsheet_url'' \<longrightarrow>
      response (on_result Export (Some d) s) = response (on_result Export (Some d') s))"
proof (intro conjI allI impI)
  assume "response s = None"
  then show "response (on_result Export data s) = None"
    by (simp add: on_result_def response_export_result export_set_url_absent split: option.splits)
next
  fix p
  assume p: "response s = Some p"
  show "\<exists>p'. response (on_result Export data s) = Some p' \<and>
          (\<forall>k. k \<noteq> ''output_spreadsheet_url'' \<longrightarrow> map_of (spread p') k = map_of (spread p) k)"
    using p export_set_url_fields [of _ p]
    by (auto simp: on_result_def response_export_result split: option.splits)
next
  fix d d'
  assume same: "prop_of d ''output_spreadsheet_url'' = prop_of d' ''output_spreadsheet_url''"
  have none: "\<not> is_object (Some x) \<Longrightarrow> prop_of x ''output_spreadsheet_url'' = None" for x
    by (cases x) simp_all
  have "response (on_result Export (Some x) s) =
          (case prop_of x ''output_spreadsheet_url'' of
             None \<Rightarrow> response s
           | Some u \<Rightarrow> if truthy (Some u) then export_set_url u (response s) else response s)" for x
    using none [of x] by (cases "is_object (Some x)") (simp_all add: on_result_def response_export_result)
  then show "response (on_result Export (Some d) s) = response (on_result Export (Some d') s)"
    using same by simp
qed

text \<open>
  C10 at a payload that carries a url and another field, over an existing result and
  over the absent one.
\<close>

theorem C10_export_result_frame_witness:
  "response analyzed = Some (JObj [(''maker_cds'', JObj [(''m'', JArr [JStr ''c''])])]) \<and>
   (\<exists>p'. response (on_result Export
                      (Some (JObj [(''output_spreadsheet_url'', JStr ''u''), (''maker_cds'', JNull)]))
                      analyzed) = Some p' \<and>
         map_of (spread p') ''maker_cds'' = Some (JObj [(''m'', JArr [JStr ''c''])])) \<and>
   response ready = None \<and>
   response (on_result Export
               (Some (JObj [(''output_spreadsheet_url'', JStr ''u''), (''maker_cds'', JNull)]))
               ready) = None"
proof -
  let ?data = "Some (JObj [(''output_spreadsheet_url'', JStr ''u''), (''maker_cds'', JNull)])"
  have p: "response analyzed = Some (JObj [(''maker_cds'', JObj [(''m'', JArr [JStr ''c''])])])"
    by (simp add: analyzed_def)
  have n: "response ready = None" by (simp add: ready_def mounted_def)
  have k: "''maker_cds'' \<noteq> ''output_spreadsheet_url''" by simp
  show ?thesis
    using p n k C10_export_result_frame [of analyzed ?data] C10_export_result_frame [of ready ?data]
    by fastforce
qed

end
